theory Spec2Isabelle
  imports Main "HOL-Library.Sublist"
begin

section \<open>The command-history engine of \<^verbatim>\<open>src/command-history.ts\<close>\<close>

text \<open>
  The engine keeps two arrays of command objects (undo and redo), a coalescence flag, a
  timer handle and a busy latch. Command objects are opaque to the engine: it only calls
  their methods. The model therefore keeps a command as a reference of type \<open>'c\<close> and
  everything the commands can read or change (their own fields, the application they act
  on) as one environment value of type \<open>'w\<close>. A method is a function of the environment
  that returns its result and the environment it leaves behind.

  Conventions of the model:
  \<^item> arrays are lists with the top of a stack at the END, as \<^verbatim>\<open>push\<close> and
    \<^verbatim>\<open>pop\<close> have it;
  \<^item> a promise either fulfils with a value or rejects; a thrown \<^verbatim>\<open>Error\<close> and a
    propagated rejection are outcomes of the call, returned together with the state
    the call leaves behind (the engine has no \<^verbatim>\<open>try\<close>, so whatever was assigned
    before the failure stays assigned);
  \<^item> a call runs from its entry to its completion as one step. The \<^verbatim>\<open>await\<close>
    points inside a call are not interleaved with other steps;
  \<^item> \<^verbatim>\<open>levels\<close> and \<^verbatim>\<open>coalescenceWindow\<close> are integers (the source type is
    \<^verbatim>\<open>number\<close>; fractions, NaN and infinities are left out);
  \<^item> the synchronous members of a command (\<^verbatim>\<open>isNoop\<close>, \<^verbatim>\<open>description\<close>,
    \<^verbatim>\<open>coalesce\<close>), the constructor and the \<^verbatim>\<open>cleanup\<close> hook return normally;
  \<^item> every call the engine makes on a command, and every \<^verbatim>\<open>console.info\<close> line, is
    appended to a log, so that "is never invoked" can be stated.
\<close>

subsection \<open>Enums and the command interface\<close>

datatype CoalescenceResult = IMMISCIBLE | COALESCED | UNDONE

datatype CommandResult = ADD | NOOP | CLEAR

datatype 'a settled = Fulfilled 'a | Rejected

text \<open>
  \<^verbatim>\<open>interface ICommand\<close>: the members of the command a reference denotes.
  \<open>cmd_coalesce\<close> is \<open>None\<close> for a command that does not define \<^verbatim>\<open>coalesce\<close>.
\<close>

record ('c, 'w) ICommand =
  cmd_execute :: "'c \<Rightarrow> 'w \<Rightarrow> CommandResult settled \<times> 'w"
  cmd_redo :: "'c \<Rightarrow> 'w \<Rightarrow> unit settled \<times> 'w"
  cmd_undo :: "'c \<Rightarrow> 'w \<Rightarrow> unit settled \<times> 'w"
  cmd_coalesce :: "'c \<Rightarrow> ('c \<Rightarrow> 'w \<Rightarrow> CoalescenceResult \<times> 'w) option"
  isNoop :: "'c \<Rightarrow> 'w \<Rightarrow> bool"
  description :: "'c \<Rightarrow> 'w \<Rightarrow> string"

subsection \<open>The engine and its host\<close>

text \<open>The private fields of \<^verbatim>\<open>class CommandHistory\<close> (\<open>busy\<close> is \<^verbatim>\<open>_busy\<close>).\<close>

record ('c, 'w) CommandHistory =
  undoCommands :: "'c list"
  redoCommands :: "'c list"
  can_coalesce :: bool
  timeoutId :: "nat option"
  cleanup :: "'w \<Rightarrow> 'w"
  coalescenceWindow :: int
  verbose :: bool
  busy :: bool

datatype 'c event =
    CallCoalesce 'c 'c
  | CallExecute 'c
  | CallUndo 'c
  | CallRedo 'c
  | CallCleanup
  | ConsoleInfo string

text \<open>
  What lies outside the engine: the environment of the commands, the log, and the
  timers of the host (\<open>pending\<close> holds the handles that \<^verbatim>\<open>setTimeout\<close> has
  scheduled and that have neither fired nor been cleared; \<open>timers\<close> counts the
  handles given out so far).
\<close>

record ('c, 'w) host =
  world :: 'w
  events :: "'c event list"
  pending :: "nat list"
  timers :: nat

datatype error = Error string | Rejection

datatype outcome = Returned | Threw error

type_synonym ('c, 'w) state = "('c, 'w) CommandHistory \<times> ('c, 'w) host"

text \<open>The constructor, with the defaults of its destructured options object.\<close>

record 'w options =
  opt_cleanup :: "('w \<Rightarrow> 'w) option"
  opt_coalescenceWindow :: "int option"
  opt_verbose :: "bool option"

definition new_CommandHistory :: "'w options \<Rightarrow> ('c, 'w) CommandHistory" where
  "new_CommandHistory opts =
     \<lparr> undoCommands = [],
       redoCommands = [],
       can_coalesce = True,
       timeoutId = None,
       cleanup = (case opt_cleanup opts of None \<Rightarrow> (\<lambda>w. w) | Some f \<Rightarrow> f),
       coalescenceWindow = (case opt_coalescenceWindow opts of None \<Rightarrow> 3000 | Some n \<Rightarrow> n),
       verbose = (case opt_verbose opts of None \<Rightarrow> True | Some b \<Rightarrow> b),
       busy = False \<rparr>"

definition new_host :: "'w \<Rightarrow> ('c, 'w) host" where
  "new_host w = \<lparr> world = w, events = [], pending = [], timers = 0 \<rparr>"

subsection \<open>Host primitives\<close>

text \<open>\<^verbatim>\<open>Array.prototype.pop\<close>: the removed element, if any, and the shortened array.\<close>

definition array_pop :: "'a list \<Rightarrow> 'a option \<times> 'a list" where
  "array_pop xs = (if xs = [] then (None, []) else (Some (last xs), butlast xs))"

text \<open>\<^verbatim>\<open>this.verbose && console.info(msg)\<close>.\<close>

definition info :: "('c, 'w) CommandHistory \<Rightarrow> string \<Rightarrow> ('c, 'w) host \<Rightarrow> ('c, 'w) host" where
  "info h msg env = (if verbose h then env\<lparr>events := events env @ [ConsoleInfo msg]\<rparr> else env)"

text \<open>
  A call made by the engine on a command or on the cleanup hook: the call is logged and
  the environment becomes the one the call leaves behind.
\<close>

definition called :: "'c event \<Rightarrow> 'w \<Rightarrow> ('c, 'w) host \<Rightarrow> ('c, 'w) host" where
  "called e w env = env\<lparr>world := w, events := events env @ [e]\<rparr>"

subsection \<open>Getters\<close>

definition undoCount :: "('c, 'w) ICommand \<Rightarrow> ('c, 'w) state \<Rightarrow> nat" where
  "undoCount ifc s =
     length (filter (\<lambda>c. \<not> isNoop ifc c (world (snd s))) (undoCommands (fst s)))"

definition redoCount :: "('c, 'w) state \<Rightarrow> nat" where
  "redoCount s = length (redoCommands (fst s))"

text \<open>
  The \<^verbatim>\<open>for\<close> loop of \<^verbatim>\<open>undoDescription\<close>, over the commands from the top of
  the stack downwards.
\<close>

fun undoDescription_scan :: "('c, 'w) ICommand \<Rightarrow> 'w \<Rightarrow> 'c list \<Rightarrow> string" where
  "undoDescription_scan ifc w [] = ''None''"
| "undoDescription_scan ifc w (cmd # below) =
     (if \<not> isNoop ifc cmd w then description ifc cmd w else undoDescription_scan ifc w below)"

definition undoDescription :: "('c, 'w) ICommand \<Rightarrow> ('c, 'w) state \<Rightarrow> string" where
  "undoDescription ifc s = undoDescription_scan ifc (world (snd s)) (rev (undoCommands (fst s)))"

definition redoDescription :: "('c, 'w) ICommand \<Rightarrow> ('c, 'w) state \<Rightarrow> string" where
  "redoDescription ifc s =
     (let redos = redoCommands (fst s)
      in if length redos \<noteq> 0 then description ifc (last redos) (world (snd s)) else ''None'')"

subsection \<open>Operations\<close>

definition coalescenceBarrier :: "('c, 'w) state \<Rightarrow> ('c, 'w) state" where
  "coalescenceBarrier s = ((fst s)\<lparr>can_coalesce := False\<rparr>, snd s)"

text \<open>The \<^verbatim>\<open>while\<close> loop of \<^verbatim>\<open>undo\<close> (lines 81 to 88).\<close>

function undo_loop ::
  "('c, 'w) ICommand \<Rightarrow> int \<Rightarrow> ('c, 'w) state \<Rightarrow> outcome \<times> ('c, 'w) state" where
  "undo_loop ifc levels (h, env) =
     (if levels > 0 \<and> length (undoCommands h) \<noteq> 0 then
        (if isNoop ifc (last (undoCommands h)) (world env)
         then undo_loop ifc levels (h\<lparr>undoCommands := butlast (undoCommands h)\<rparr>, env)
         else if fst (cmd_undo ifc (last (undoCommands h)) (world env)) = Rejected
         then (Threw Rejection,
               (h\<lparr>undoCommands := butlast (undoCommands h)\<rparr>,
                called (CallUndo (last (undoCommands h)))
                  (snd (cmd_undo ifc (last (undoCommands h)) (world env))) env))
         else undo_loop ifc (levels - 1)
               (h\<lparr>undoCommands := butlast (undoCommands h),
                  redoCommands := redoCommands h @ [last (undoCommands h)]\<rparr>,
                info h (''Undid '' @ description ifc (last (undoCommands h))
                          (snd (cmd_undo ifc (last (undoCommands h)) (world env))) @ ''.'')
                  (called (CallUndo (last (undoCommands h)))
                     (snd (cmd_undo ifc (last (undoCommands h)) (world env))) env)))
      else (Returned, (h, env)))"
  by pat_completeness auto
termination
  by (relation "measure (\<lambda>(ifc, levels, h, env). length (undoCommands h))") auto

declare undo_loop.simps [simp del]

definition undo :: "('c, 'w) ICommand \<Rightarrow> int \<Rightarrow> ('c, 'w) state \<Rightarrow> outcome \<times> ('c, 'w) state" where
  "undo ifc levels s =
     (if busy (fst s) then (Threw (Error ''Cannot undo during another operation.''), s)
      else case undo_loop ifc levels ((fst s)\<lparr>busy := True\<rparr>, snd s) of
             (Threw e, s') \<Rightarrow> (Threw e, s')
           | (Returned, (h, env)) \<Rightarrow>
               (Returned,
                (h\<lparr>can_coalesce := False, busy := False\<rparr>,
                 called CallCleanup (cleanup h (world env)) env)))"

text \<open>The \<^verbatim>\<open>while\<close> loop of \<^verbatim>\<open>redo\<close> (lines 98 to 104).\<close>

function redo_loop ::
  "('c, 'w) ICommand \<Rightarrow> int \<Rightarrow> ('c, 'w) state \<Rightarrow> outcome \<times> ('c, 'w) state" where
  "redo_loop ifc levels (h, env) =
     (if levels > 0 \<and> length (redoCommands h) \<noteq> 0 then
        (if fst (cmd_redo ifc (last (redoCommands h)) (world env)) = Rejected
         then (Threw Rejection,
               (h\<lparr>redoCommands := butlast (redoCommands h)\<rparr>,
                called (CallRedo (last (redoCommands h)))
                  (snd (cmd_redo ifc (last (redoCommands h)) (world env))) env))
         else redo_loop ifc (levels - 1)
               (h\<lparr>redoCommands := butlast (redoCommands h),
                  undoCommands := undoCommands h @ [last (redoCommands h)]\<rparr>,
                info h (''Redid '' @ description ifc (last (redoCommands h))
                          (snd (cmd_redo ifc (last (redoCommands h)) (world env))) @ ''.'')
                  (called (CallRedo (last (redoCommands h)))
                     (snd (cmd_redo ifc (last (redoCommands h)) (world env))) env)))
      else (Returned, (h, env)))"
  by pat_completeness auto
termination
  by (relation "measure (\<lambda>(ifc, levels, h, env). length (redoCommands h))") auto

declare redo_loop.simps [simp del]

definition redo :: "('c, 'w) ICommand \<Rightarrow> int \<Rightarrow> ('c, 'w) state \<Rightarrow> outcome \<times> ('c, 'w) state" where
  "redo ifc levels s =
     (if busy (fst s) then (Threw (Error ''Cannot redo during another operation.''), s)
      else case redo_loop ifc levels ((fst s)\<lparr>busy := True\<rparr>, snd s) of
             (Threw e, s') \<Rightarrow> (Threw e, s')
           | (Returned, (h, env)) \<Rightarrow>
               (Returned,
                (h\<lparr>can_coalesce := False, busy := False\<rparr>,
                 called CallCleanup (cleanup h (world env)) env)))"

definition pop :: "('c, 'w) state \<Rightarrow> outcome \<times> ('c, 'w) state" where
  "pop s =
     (if busy (fst s)
      then (Threw (Error ''Cannot alter command history state during an operation.''), s)
      else (Returned, ((fst s)\<lparr>undoCommands := snd (array_pop (undoCommands (fst s)))\<rparr>, snd s)))"

definition clear :: "('c, 'w) state \<Rightarrow> outcome \<times> ('c, 'w) state" where
  "clear s =
     (if busy (fst s)
      then (Threw (Error ''Cannot alter command history state during an operation.''), s)
      else (Returned, ((fst s)\<lparr>undoCommands := [], redoCommands := []\<rparr>, snd s)))"

text \<open>
  The coalescence block of \<^verbatim>\<open>execute\<close> (lines 128 to 148). The first component of
  the result tells whether the block ended in one of its two \<^verbatim>\<open>return\<close> statements.
\<close>

definition try_coalesce ::
  "('c, 'w) ICommand \<Rightarrow> 'c \<Rightarrow> ('c, 'w) state \<Rightarrow> bool \<times> ('c, 'w) state" where
  "try_coalesce ifc ncmd s =
     (let h = fst s; env = snd s in
      if can_coalesce h then
        (case array_pop (undoCommands h) of
           (None, rest) \<Rightarrow> (False, (h\<lparr>undoCommands := rest\<rparr>, env))
         | (Some lcmd, rest) \<Rightarrow>
             (case cmd_coalesce ifc lcmd of
                None \<Rightarrow> (False, (h\<lparr>undoCommands := rest @ [lcmd]\<rparr>, env))
              | Some coalesce \<Rightarrow>
                  (let r = coalesce ncmd (world env);
                       env' = called (CallCoalesce lcmd ncmd) (snd r) env
                   in case fst r of
                        IMMISCIBLE \<Rightarrow> (False, (h\<lparr>undoCommands := rest @ [lcmd]\<rparr>, env'))
                      | COALESCED \<Rightarrow>
                          (True, (h\<lparr>undoCommands := rest @ [lcmd]\<rparr>,
                                  info h (''Coalesced '' @ description ifc ncmd (snd r) @ ''.'') env'))
                      | UNDONE \<Rightarrow>
                          (True, (h\<lparr>undoCommands := rest\<rparr>,
                                  info h (''Dropped '' @ description ifc ncmd (snd r)
                                          @ '' due to manual undo.'') env')))))
      else (False, (h, env)))"

text \<open>The \<^verbatim>\<open>switch\<close> on the result of \<^verbatim>\<open>ncmd.execute()\<close> (lines 150 to 166).\<close>

definition apply_result ::
  "('c, 'w) ICommand \<Rightarrow> 'c \<Rightarrow> CommandResult \<Rightarrow> ('c, 'w) state \<Rightarrow> ('c, 'w) state" where
  "apply_result ifc ncmd r s =
     (let h = fst s; env = snd s in
      case r of
        ADD \<Rightarrow>
          (h\<lparr>undoCommands := undoCommands h @ [ncmd], redoCommands := [], can_coalesce := True\<rparr>,
           info h (''Added '' @ description ifc ncmd (world env) @ '' to undo stack.'') env)
      | CLEAR \<Rightarrow>
          (h\<lparr>undoCommands := [], redoCommands := [], can_coalesce := False\<rparr>,
           info h (''Executed '' @ description ifc ncmd (world env) @ '' and cleared stack.'') env)
      | NOOP \<Rightarrow>
          (h, info h (description ifc ncmd (world env) @ '' was a no-op.'') env))"

text \<open>
  The tail of \<^verbatim>\<open>execute\<close> (lines 172 to 180): cancel the pending timer, then either
  schedule a new one or lower the flag at once.
\<close>

definition rearm_timer :: "('c, 'w) state \<Rightarrow> ('c, 'w) state" where
  "rearm_timer s =
     (let h = fst s;
          env = (case timeoutId h of
                   None \<Rightarrow> snd s
                 | Some t \<Rightarrow> (snd s)\<lparr>pending := removeAll t (pending (snd s))\<rparr>)
      in if coalescenceWindow h > 0
         then (h\<lparr>timeoutId := Some (Suc (timers env))\<rparr>,
               env\<lparr>pending := pending env @ [Suc (timers env)], timers := Suc (timers env)\<rparr>)
         else (h\<lparr>can_coalesce := False\<rparr>, env))"

text \<open>The callback handed to \<^verbatim>\<open>setTimeout\<close>, run when the pending timer expires.\<close>

definition timer_fires :: "('c, 'w) state \<Rightarrow> ('c, 'w) state" where
  "timer_fires s =
     (case timeoutId (fst s) of
        None \<Rightarrow> s
      | Some t \<Rightarrow>
          if t \<in> set (pending (snd s))
          then ((fst s)\<lparr>can_coalesce := False, timeoutId := None\<rparr>,
                (snd s)\<lparr>pending := removeAll t (pending (snd s))\<rparr>)
          else s)"

text \<open>
  \<^verbatim>\<open>execute(ctor, ...args)\<close>. The argument \<open>ctor\<close> stands for
  \<^verbatim>\<open>new ctor(...args)\<close>: it yields the reference of the new command and the
  environment after the construction.
\<close>

definition execute ::
  "('c, 'w) ICommand \<Rightarrow> ('w \<Rightarrow> 'c \<times> 'w) \<Rightarrow> ('c, 'w) state \<Rightarrow> outcome \<times> ('c, 'w) state" where
  "execute ifc ctor s =
     (if busy (fst s) then (Threw (Error ''Cannot execute command during another operation.''), s)
      else
        (let ncmd = fst (ctor (world (snd s)));
             s1 = ((fst s)\<lparr>busy := True\<rparr>, (snd s)\<lparr>world := snd (ctor (world (snd s)))\<rparr>)
         in case try_coalesce ifc ncmd s1 of
              (True, s2) \<Rightarrow> (Returned, s2)
            | (False, (h2, env2)) \<Rightarrow>
                (case cmd_execute ifc ncmd (world env2) of
                   (Rejected, w) \<Rightarrow> (Threw Rejection, (h2, called (CallExecute ncmd) w env2))
                 | (Fulfilled r, w) \<Rightarrow>
                     (case apply_result ifc ncmd r (h2, called (CallExecute ncmd) w env2) of
                        (h3, env3) \<Rightarrow> (Returned, rearm_timer (h3\<lparr>busy := False\<rparr>, env3))))))"

subsection \<open>Sequences of calls\<close>

datatype ('c, 'w) call =
    Execute "'w \<Rightarrow> 'c \<times> 'w"
  | Undo int
  | Redo int
  | Pop
  | Clear
  | CoalescenceBarrier
  | TimerFires

fun step :: "('c, 'w) ICommand \<Rightarrow> ('c, 'w) call \<Rightarrow> ('c, 'w) state \<Rightarrow> outcome \<times> ('c, 'w) state" where
  "step ifc (Execute ctor) s = execute ifc ctor s"
| "step ifc (Undo levels) s = undo ifc levels s"
| "step ifc (Redo levels) s = redo ifc levels s"
| "step ifc Pop s = pop s"
| "step ifc Clear s = clear s"
| "step ifc CoalescenceBarrier s = (Returned, coalescenceBarrier s)"
| "step ifc TimerFires s = (Returned, timer_fires s)"

text \<open>
  Running a list of calls one after the other. A call that fails leaves its state
  behind and the next call starts from it, as a caller that catches the error sees it.
  The result lists the outcome of every call.
\<close>

fun run ::
  "('c, 'w) ICommand \<Rightarrow> ('c, 'w) call list \<Rightarrow> ('c, 'w) state \<Rightarrow> outcome list \<times> ('c, 'w) state" where
  "run ifc [] s = ([], s)"
| "run ifc (c # cs) s =
     (case step ifc c s of
        (out, s') \<Rightarrow> (case run ifc cs s' of (outs, s'') \<Rightarrow> (out # outs, s'')))"

subsection \<open>Sample commands for the closed examples\<close>

text \<open>
  A small family of commands over an integer document. The number a command carries
  is its identity. \<open>Merging\<close>, \<open>Cancelling\<close> and \<open>Picky\<close> define
  \<^verbatim>\<open>coalesce\<close> (answering COALESCED, UNDONE and IMMISCIBLE); \<open>Idle\<close> and
  \<open>Wipe\<close> resolve to NOOP and CLEAR; the reverse operation of \<open>Stuck\<close> rejects;
  \<open>Ghost\<close> reports itself as a no-op.
\<close>

datatype demo =
  Plain nat | Merging nat | Cancelling nat | Picky nat | Idle nat | Wipe nat | Stuck nat | Ghost nat

definition demo_ifc :: "(demo, int) ICommand" where
  "demo_ifc =
     \<lparr> cmd_execute = (\<lambda>c w. case c of Idle _ \<Rightarrow> (Fulfilled NOOP, w)
                               | Wipe _ \<Rightarrow> (Fulfilled CLEAR, w + 1)
                               | _ \<Rightarrow> (Fulfilled ADD, w + 1)),
       cmd_redo = (\<lambda>c w. (Fulfilled (), w + 1)),
       cmd_undo = (\<lambda>c w. case c of Stuck _ \<Rightarrow> (Rejected, w) | _ \<Rightarrow> (Fulfilled (), w - 1)),
       cmd_coalesce = (\<lambda>c. case c of Merging _ \<Rightarrow> Some (\<lambda>n w. (COALESCED, w + 1))
                               | Cancelling _ \<Rightarrow> Some (\<lambda>n w. (UNDONE, w - 1))
                               | Picky _ \<Rightarrow> Some (\<lambda>n w. (IMMISCIBLE, w))
                               | _ \<Rightarrow> None),
       isNoop = (\<lambda>c w. case c of Ghost _ \<Rightarrow> True | _ \<Rightarrow> False),
       description = (\<lambda>c w. case c of Plain _ \<Rightarrow> ''plain'' | Merging _ \<Rightarrow> ''merging''
                               | Cancelling _ \<Rightarrow> ''cancelling'' | Picky _ \<Rightarrow> ''picky''
                               | Idle _ \<Rightarrow> ''idle'' | Wipe _ \<Rightarrow> ''wipe''
                               | Stuck _ \<Rightarrow> ''stuck'' | Ghost _ \<Rightarrow> ''ghost'') \<rparr>"

text \<open>The constructor call \<^verbatim>\<open>new ctor(...args)\<close> that yields the given command.\<close>

definition make :: "demo \<Rightarrow> int \<Rightarrow> demo \<times> int" where
  "make c w = (c, w)"

definition default_options :: "int options" where
  "default_options = \<lparr> opt_cleanup = None, opt_coalescenceWindow = None, opt_verbose = None \<rparr>"

definition no_window :: "int options" where
  "no_window = \<lparr> opt_cleanup = None, opt_coalescenceWindow = Some 0, opt_verbose = None \<rparr>"

text \<open>\<^verbatim>\<open>new CommandHistory()\<close> and \<^verbatim>\<open>new CommandHistory({coalescenceWindow: 0})\<close>.\<close>

definition fresh :: "(demo, int) state" where
  "fresh = (new_CommandHistory default_options, new_host 0)"

definition fresh_no_window :: "(demo, int) state" where
  "fresh_no_window = (new_CommandHistory no_window, new_host 0)"

section \<open>Properties\<close>

subsection \<open>Auxiliary facts\<close>

lemmas demo_defs =
  demo_ifc_def make_def default_options_def no_window_def fresh_def fresh_no_window_def
  new_CommandHistory_def new_host_def execute_def try_coalesce_def array_pop_def info_def
  called_def apply_result_def rearm_timer_def undo_def redo_def pop_def clear_def
  coalescenceBarrier_def timer_fires_def Let_def

lemma array_pop_snoc [simp]: "array_pop (xs @ [x]) = (Some x, xs)"
  by (simp add: array_pop_def)

lemma array_pop_Nil [simp]: "array_pop [] = (None, [])"
  by (simp add: array_pop_def)

lemma array_pop_push_back: "array_pop xs = (Some x, rest) \<Longrightarrow> rest @ [x] = xs"
  by (auto simp: array_pop_def split: if_splits)

lemma array_pop_None: "array_pop xs = (None, rest) \<Longrightarrow> xs = [] \<and> rest = []"
  by (auto simp: array_pop_def split: if_splits)

text \<open>
  When the coalescence block falls through, the incumbent has been pushed back
  and the engine's fields are what they were.
\<close>

lemma try_coalesce_proceeds:
  assumes "try_coalesce ifc ncmd (h, env) = (False, (h2, env2))"
  shows "h2 = h"
  using assms
  by (auto simp: try_coalesce_def Let_def
      split: if_splits prod.splits option.splits CoalescenceResult.splits
      dest!: array_pop_push_back array_pop_None)

lemma try_coalesce_frame:
  assumes "try_coalesce ifc ncmd (h, env) = (b, (h2, env2))"
  shows "h2 = h\<lparr>undoCommands := undoCommands h2\<rparr>"
  using assms
  by (auto simp: try_coalesce_def Let_def
      split: if_splits prod.splits option.splits CoalescenceResult.splits)

lemma undo_returned:
  assumes "undo ifc levels s0 = (Returned, (h, env))"
  shows "\<not> busy h \<and> \<not> can_coalesce h"
  using assms
  by (auto simp: undo_def split: if_splits prod.splits outcome.splits)

lemma execute_proceeds:
  assumes "\<not> busy h" and "ctor (world env) = (ncmd, w)"
    and "try_coalesce ifc ncmd (h\<lparr>busy := True\<rparr>, env\<lparr>world := w\<rparr>) = (False, (h2, env2))"
    and "cmd_execute ifc ncmd (world env2) = (Fulfilled r, w')"
  shows "execute ifc ctor (h, env)
           = (Returned, rearm_timer
                (case apply_result ifc ncmd r (h\<lparr>busy := True\<rparr>, called (CallExecute ncmd) w' env2) of
                   (h3, env3) \<Rightarrow> (h3\<lparr>busy := False\<rparr>, env3)))"
  using assms try_coalesce_proceeds [OF assms(3)]
  by (simp add: execute_def split: prod.splits)

lemma rearm_timer_frame:
  "undoCommands (fst (rearm_timer s)) = undoCommands (fst s)
   \<and> redoCommands (fst (rearm_timer s)) = redoCommands (fst s)
   \<and> busy (fst (rearm_timer s)) = busy (fst s)
   \<and> can_coalesce (fst (rearm_timer s)) = (can_coalesce (fst s) \<and> coalescenceWindow (fst s) > 0)"
  by (simp add: rearm_timer_def Let_def)

lemma execute_add_stacks:
  assumes "\<not> busy h" and "ctor (world env) = (ncmd, w)"
    and "try_coalesce ifc ncmd (h\<lparr>busy := True\<rparr>, env\<lparr>world := w\<rparr>) = (False, (h2, env2))"
    and "cmd_execute ifc ncmd (world env2) = (Fulfilled ADD, w')"
  shows "fst (execute ifc ctor (h, env)) = Returned"
    and "undoCommands (fst (snd (execute ifc ctor (h, env)))) = undoCommands h @ [ncmd]"
    and "redoCommands (fst (snd (execute ifc ctor (h, env)))) = []"
  by (simp_all add: execute_proceeds [where ctor = ctor and env = env, OF assms] rearm_timer_frame apply_result_def Let_def)

lemma execute_noop_stacks:
  assumes "\<not> busy h" and "ctor (world env) = (ncmd, w)"
    and "try_coalesce ifc ncmd (h\<lparr>busy := True\<rparr>, env\<lparr>world := w\<rparr>) = (False, (h2, env2))"
    and "cmd_execute ifc ncmd (world env2) = (Fulfilled NOOP, w')"
  shows "fst (execute ifc ctor (h, env)) = Returned"
    and "undoCommands (fst (snd (execute ifc ctor (h, env)))) = undoCommands h"
    and "redoCommands (fst (snd (execute ifc ctor (h, env)))) = redoCommands h"
    and "can_coalesce (fst (snd (execute ifc ctor (h, env))))
           = (can_coalesce h \<and> coalescenceWindow h > 0)"
  by (simp_all add: execute_proceeds [where ctor = ctor and env = env, OF assms] rearm_timer_frame apply_result_def Let_def)

lemma undo_loop_frame:
  "undo_loop ifc levels s = (out, s') \<Longrightarrow>
   fst s' = (fst s)\<lparr>undoCommands := undoCommands (fst s'), redoCommands := redoCommands (fst s')\<rparr>"
proof (induction ifc levels s arbitrary: out s' rule: undo_loop.induct)
  case (1 ifc levels h env)
  show ?case
  proof (cases "levels > 0 \<and> length (undoCommands h) \<noteq> 0")
    case False
    with "1.prems" show ?thesis
      by (auto simp: undo_loop.simps)
  next
    case run: True
    show ?thesis
    proof (cases "isNoop ifc (last (undoCommands h)) (world env)")
      case True
      with run "1.prems" "1.IH"(1) [OF run True, of out s'] show ?thesis
        by (simp add: undo_loop.simps [of ifc levels h env])
    next
      case live: False
      show ?thesis
      proof (cases "fst (cmd_undo ifc (last (undoCommands h)) (world env)) = Rejected")
        case True
        with run live "1.prems" show ?thesis
          by (auto simp: undo_loop.simps [of ifc levels h env])
      next
        case False
        with run live "1.prems" "1.IH"(2) [OF run live False, of out s'] show ?thesis
          by (simp add: undo_loop.simps [of ifc levels h env])
      qed
    qed
  qed
qed

lemma redo_loop_frame:
  "redo_loop ifc levels s = (out, s') \<Longrightarrow>
   fst s' = (fst s)\<lparr>undoCommands := undoCommands (fst s'), redoCommands := redoCommands (fst s')\<rparr>"
proof (induction ifc levels s arbitrary: out s' rule: redo_loop.induct)
  case (1 ifc levels h env)
  show ?case
  proof (cases "levels > 0 \<and> length (redoCommands h) \<noteq> 0")
    case False
    with "1.prems" show ?thesis
      by (auto simp: redo_loop.simps)
  next
    case run: True
    show ?thesis
    proof (cases "fst (cmd_redo ifc (last (redoCommands h)) (world env)) = Rejected")
      case True
      with run "1.prems" show ?thesis
        by (auto simp: redo_loop.simps [of ifc levels h env])
    next
      case False
      with run "1.prems" "1.IH" [OF run False, of out s'] show ?thesis
        by (simp add: redo_loop.simps [of ifc levels h env])
    qed
  qed
qed

lemma undo_loop_fields:
  assumes "undo_loop ifc levels s = (out, s')"
  shows "busy (fst s') = busy (fst s)" and "can_coalesce (fst s') = can_coalesce (fst s)"
proof -
  note f = undo_loop_frame [OF assms]
  show "busy (fst s') = busy (fst s)" by (subst f) simp
  show "can_coalesce (fst s') = can_coalesce (fst s)" by (subst f) simp
qed

lemma redo_loop_fields:
  assumes "redo_loop ifc levels s = (out, s')"
  shows "busy (fst s') = busy (fst s)" and "can_coalesce (fst s') = can_coalesce (fst s)"
proof -
  note f = redo_loop_frame [OF assms]
  show "busy (fst s') = busy (fst s)" by (subst f) simp
  show "can_coalesce (fst s') = can_coalesce (fst s)" by (subst f) simp
qed

lemma undo_loop_throws:
  "undo_loop ifc levels s = (Threw e, s') \<Longrightarrow> e = Rejection"
proof (induction ifc levels s arbitrary: s' rule: undo_loop.induct)
  case (1 ifc levels h env)
  from "1.prems" "1.IH" show ?case
    by (simp add: undo_loop.simps [of ifc levels h env] split: if_splits)
qed

lemma redo_loop_throws:
  "redo_loop ifc levels s = (Threw e, s') \<Longrightarrow> e = Rejection"
proof (induction ifc levels s arbitrary: s' rule: redo_loop.induct)
  case (1 ifc levels h env)
  from "1.prems" "1.IH" show ?case
    by (simp add: redo_loop.simps [of ifc levels h env] split: if_splits)
qed

lemma redo_loop_Nil:
  "redoCommands h = [] \<Longrightarrow> redo_loop ifc levels (h, env) = (Returned, (h, env))"
  by (simp add: redo_loop.simps)

lemma undo_loop_Nil:
  "undoCommands h = [] \<Longrightarrow> undo_loop ifc levels (h, env) = (Returned, (h, env))"
  by (simp add: undo_loop.simps)

lemma undo_cases:
  assumes "undo ifc levels (h, env) = (out, (h', env'))"
  shows "(busy h \<and> h' = h \<and> env' = env \<and> out = Threw (Error ''Cannot undo during another operation.''))
       \<or> (\<not> busy h \<and> out = Threw Rejection \<and> busy h' \<and> can_coalesce h' = can_coalesce h)
       \<or> (\<not> busy h \<and> out = Returned \<and> \<not> busy h' \<and> \<not> can_coalesce h')"
proof (cases "busy h")
  case True
  with assms show ?thesis by (simp add: undo_def)
next
  case False
  obtain o1 h1 env1 where l: "undo_loop ifc levels (h\<lparr>busy := True\<rparr>, env) = (o1, (h1, env1))"
    by (metis surj_pair)
  from undo_loop_fields [OF l] have f: "busy h1" "can_coalesce h1 = can_coalesce h"
    by simp_all
  show ?thesis
  proof (cases o1)
    case Returned
    with assms False l show ?thesis by (auto simp: undo_def)
  next
    case (Threw e)
    with l undo_loop_throws have "e = Rejection" by blast
    with Threw assms False l f show ?thesis by (auto simp: undo_def)
  qed
qed

lemma redo_cases:
  assumes "redo ifc levels (h, env) = (out, (h', env'))"
  shows "(busy h \<and> h' = h \<and> env' = env \<and> out = Threw (Error ''Cannot redo during another operation.''))
       \<or> (\<not> busy h \<and> out = Threw Rejection \<and> busy h' \<and> can_coalesce h' = can_coalesce h
            \<and> redoCommands h \<noteq> [])
       \<or> (\<not> busy h \<and> out = Returned \<and> \<not> busy h' \<and> \<not> can_coalesce h')"
proof (cases "busy h")
  case True
  with assms show ?thesis by (simp add: redo_def)
next
  case False
  obtain o1 h1 env1 where l: "redo_loop ifc levels (h\<lparr>busy := True\<rparr>, env) = (o1, (h1, env1))"
    by (metis surj_pair)
  from redo_loop_fields [OF l] have f: "busy h1" "can_coalesce h1 = can_coalesce h"
    by simp_all
  show ?thesis
  proof (cases o1)
    case Returned
    with assms False l show ?thesis by (auto simp: redo_def)
  next
    case (Threw e)
    with l redo_loop_throws have e: "e = Rejection" by blast
    have "redoCommands h \<noteq> []"
    proof
      assume "redoCommands h = []"
      then have "redo_loop ifc levels (h\<lparr>busy := True\<rparr>, env) = (Returned, (h\<lparr>busy := True\<rparr>, env))"
        by (simp add: redo_loop_Nil)
      with l Threw show False by simp
    qed
    with e Threw assms False l f show ?thesis by (auto simp: redo_def)
  qed
qed

text \<open>What a call of \<^verbatim>\<open>execute\<close> can do to the flags and to the redo stack.\<close>

lemma execute_cases:
  assumes "execute ifc ctor (h, env) = (out, (h', env'))"
  shows "(busy h \<and> h' = h \<and> env' = env
            \<and> out = Threw (Error ''Cannot execute command during another operation.''))
       \<or> (\<not> busy h \<and> busy h' \<and> can_coalesce h' = can_coalesce h
            \<and> redoCommands h' = redoCommands h
            \<and> (out = Threw Rejection \<or> out = Returned \<and> can_coalesce h))
       \<or> (\<not> busy h \<and> \<not> busy h' \<and> out = Returned
            \<and> (\<exists>r w. cmd_execute ifc (fst (ctor (world env))) w = (Fulfilled r, world env')
                 \<and> (can_coalesce h \<or> w = snd (ctor (world env)))
                 \<and> redoCommands h' = (if r = NOOP then redoCommands h else [])
                 \<and> can_coalesce h'
                     = ((r = ADD \<or> r = NOOP \<and> can_coalesce h) \<and> coalescenceWindow h > 0)))"
proof (cases "busy h")
  case True
  with assms show ?thesis by (simp add: execute_def)
next
  case nb: False
  define ncmd where "ncmd = fst (ctor (world env))"
  define w where "w = snd (ctor (world env))"
  obtain b h2 env2 where t: "try_coalesce ifc ncmd (h\<lparr>busy := True\<rparr>, env\<lparr>world := w\<rparr>) = (b, (h2, env2))"
    by (metis surj_pair)
  have c: "ctor (world env) = (ncmd, w)"
    by (simp add: ncmd_def w_def)
  show ?thesis
  proof (cases b)
    case True
    have cc: "can_coalesce h"
      using t True by (auto simp: try_coalesce_def Let_def split: if_splits)
    note f = try_coalesce_frame [OF t]
    have "busy h2" "can_coalesce h2 = can_coalesce h" "redoCommands h2 = redoCommands h"
      by (subst f, simp)+
    with assms nb t True cc c show ?thesis
      by (auto simp: execute_def Let_def)
  next
    case False
    have h2: "h2 = h\<lparr>busy := True\<rparr>"
      using t False by (simp add: try_coalesce_proceeds)
    have w2: "can_coalesce h \<or> world env2 = w"
      using t False by (auto simp: try_coalesce_def Let_def split: if_splits)
    obtain q w' where x: "cmd_execute ifc ncmd (world env2) = (q, w')"
      by (metis surj_pair)
    show ?thesis
    proof (cases q)
      case Rejected
      with assms nb t False c x h2 show ?thesis
        by (auto simp: execute_def Let_def)
    next
      case (Fulfilled r)
      have t': "try_coalesce ifc ncmd (h\<lparr>busy := True\<rparr>, env\<lparr>world := w\<rparr>) = (False, (h2, env2))"
        using t False by simp
      have x': "cmd_execute ifc ncmd (world env2) = (Fulfilled r, w')"
        using x Fulfilled by simp
      note e = execute_proceeds [where ctor = ctor and env = env, OF nb c t' x']
      from assms e have s': "(h', env') = rearm_timer
                (case apply_result ifc ncmd r (h\<lparr>busy := True\<rparr>, called (CallExecute ncmd) w' env2) of
                   (h3, env3) \<Rightarrow> (h3\<lparr>busy := False\<rparr>, env3))" and out: "out = Returned"
        by simp_all
      have wenv: "world env' = w'"
        using s' by (cases r) (auto simp: rearm_timer_def apply_result_def Let_def info_def called_def
            split: option.splits if_splits)
      have fields: "\<not> busy h'"
        "redoCommands h' = (if r = NOOP then redoCommands h else [])"
        "can_coalesce h' = ((r = ADD \<or> r = NOOP \<and> can_coalesce h) \<and> coalescenceWindow h > 0)"
        using arg_cong [OF s', of fst]
        by (cases r; simp add: rearm_timer_frame apply_result_def Let_def)+
      have "cmd_execute ifc (fst (ctor (world env))) (world env2) = (Fulfilled r, world env')"
        using x Fulfilled wenv by (simp add: ncmd_def)
      moreover have "can_coalesce h \<or> world env2 = snd (ctor (world env))"
        using w2 by (simp add: w_def)
      ultimately show ?thesis
        using nb out fields by blast
    qed
  qed
qed

lemma step_keeps_eligible_redo_empty:
  assumes inv: "can_coalesce h \<longrightarrow> redoCommands h = []"
    and st: "step ifc c (h, env) = (out, (h', env'))"
    and ok: "\<forall>n. \<not> (c = Undo n \<and> out = Threw Rejection)"
  shows "can_coalesce h' \<longrightarrow> redoCommands h' = []"
proof (cases c)
  case (Execute ctor)
  with st have "execute ifc ctor (h, env) = (out, (h', env'))"
    by simp
  from execute_cases [OF this] inv show ?thesis
    by (auto split: if_splits)
next
  case (Undo levels)
  with st have "undo ifc levels (h, env) = (out, (h', env'))"
    by simp
  from undo_cases [OF this] inv ok Undo show ?thesis
    by auto
next
  case (Redo levels)
  with st have "redo ifc levels (h, env) = (out, (h', env'))"
    by simp
  from redo_cases [OF this] inv show ?thesis
    by auto
next
  case Pop
  with st inv show ?thesis
    by (auto simp: pop_def split: if_splits)
next
  case Clear
  with st inv show ?thesis
    by (auto simp: clear_def split: if_splits)
next
  case CoalescenceBarrier
  with st inv show ?thesis
    by (auto simp: coalescenceBarrier_def)
next
  case TimerFires
  with st inv show ?thesis
    by (auto simp: timer_fires_def split: option.splits if_splits)
qed

lemma step_keeps_idle_invariant:
  assumes inv: "busy h \<or> (can_coalesce h \<longrightarrow> redoCommands h = [])"
    and st: "step ifc c (h, env) = (out, (h', env'))"
  shows "busy h' \<or> (can_coalesce h' \<longrightarrow> redoCommands h' = [])"
proof (cases c)
  case (Execute ctor)
  with st have "execute ifc ctor (h, env) = (out, (h', env'))"
    by simp
  from execute_cases [OF this] inv show ?thesis
    by (auto split: if_splits)
next
  case (Undo levels)
  with st have "undo ifc levels (h, env) = (out, (h', env'))"
    by simp
  from undo_cases [OF this] inv show ?thesis
    by auto
next
  case (Redo levels)
  with st have "redo ifc levels (h, env) = (out, (h', env'))"
    by simp
  from redo_cases [OF this] inv show ?thesis
    by auto
next
  case Pop
  with st inv show ?thesis
    by (auto simp: pop_def split: if_splits)
next
  case Clear
  with st inv show ?thesis
    by (auto simp: clear_def split: if_splits)
next
  case CoalescenceBarrier
  with st inv show ?thesis
    by (auto simp: coalescenceBarrier_def)
next
  case TimerFires
  with st inv show ?thesis
    by (auto simp: timer_fires_def split: option.splits if_splits)
qed

lemma run_keeps_eligible_redo_empty:
  assumes "can_coalesce (fst s) \<longrightarrow> redoCommands (fst s) = []"
    and "run ifc calls s = (outs, s')"
    and "\<forall>n. (Undo n, Threw Rejection) \<notin> set (zip calls outs)"
  shows "can_coalesce (fst s') \<longrightarrow> redoCommands (fst s') = []"
  using assms
proof (induction calls arbitrary: s outs)
  case Nil
  then show ?case by simp
next
  case (Cons c calls)
  obtain out h1 env1 where st: "step ifc c (fst s, snd s) = (out, (h1, env1))"
    by (metis surj_pair)
  obtain outs1 where r: "run ifc calls (h1, env1) = (outs1, s')" and o: "outs = out # outs1"
    using Cons.prems(2) st by (auto split: prod.splits)
  have ok: "\<forall>n. \<not> (c = Undo n \<and> out = Threw Rejection)"
    using Cons.prems(3) o by auto
  have inv1: "can_coalesce (fst (h1, env1)) \<longrightarrow> redoCommands (fst (h1, env1)) = []"
    using step_keeps_eligible_redo_empty [OF Cons.prems(1) st ok] by simp
  have "\<forall>n. (Undo n, Threw Rejection) \<notin> set (zip calls outs1)"
    using Cons.prems(3) o by auto
  from Cons.IH [OF inv1 r this] show ?case .
qed

lemma run_keeps_idle_invariant:
  assumes "busy (fst s) \<or> (can_coalesce (fst s) \<longrightarrow> redoCommands (fst s) = [])"
    and "run ifc calls s = (outs, s')"
  shows "busy (fst s') \<or> (can_coalesce (fst s') \<longrightarrow> redoCommands (fst s') = [])"
  using assms
proof (induction calls arbitrary: s outs)
  case Nil
  then show ?case by simp
next
  case (Cons c calls)
  obtain out h1 env1 where st: "step ifc c (fst s, snd s) = (out, (h1, env1))"
    by (metis surj_pair)
  obtain outs1 where r: "run ifc calls (h1, env1) = (outs1, s')"
    using Cons.prems(2) st by (auto split: prod.splits)
  have inv1: "busy (fst (h1, env1)) \<or> (can_coalesce (fst (h1, env1)) \<longrightarrow> redoCommands (fst (h1, env1)) = [])"
    using step_keeps_idle_invariant [OF Cons.prems(1) st] by simp
  from Cons.IH [OF inv1 r] show ?case .
qed




lemma info_busy [simp]: "info (h\<lparr>busy := b\<rparr>) msg env = info h msg env"
  by (simp add: info_def)




lemma events_info:
  "\<exists>lines. events (info h msg env) = events env @ lines \<and> [c. CallUndo c \<leftarrow> lines] = []
      \<and> [c. CallRedo c \<leftarrow> lines] = []"
  by (simp add: info_def)





subsection \<open>Calls on a busy engine\<close>

text \<open>
  Claim C3. When \<^verbatim>\<open>execute\<close>, \<^verbatim>\<open>undo\<close>, \<^verbatim>\<open>redo\<close>, \<^verbatim>\<open>pop\<close> or
  \<^verbatim>\<open>clear\<close> is called while the engine is busy, the call fails with the error of its
  busy guard and nothing changes: the engine (both stacks and the coalescence flag
  among its fields) and the host (so the no-op predicates that the undo count reads,
  and the log) are exactly what they were. The model does not tell a thrown error from
  a rejected promise, which is how the three \<^verbatim>\<open>async\<close> methods deliver it.
\<close>

theorem busy_call_rejected_unchanged:
  assumes "busy h"
  shows "execute ifc ctor (h, env)
           = (Threw (Error ''Cannot execute command during another operation.''), (h, env))
       \<and> undo ifc levels (h, env) = (Threw (Error ''Cannot undo during another operation.''), (h, env))
       \<and> redo ifc levels (h, env) = (Threw (Error ''Cannot redo during another operation.''), (h, env))
       \<and> pop (h, env)
           = (Threw (Error ''Cannot alter command history state during an operation.''), (h, env))
       \<and> clear (h, env)
           = (Threw (Error ''Cannot alter command history state during an operation.''), (h, env))
       \<and> (\<forall>c \<in> {Execute ctor, Undo levels, Redo levels, Pop, Clear}.
             undoCommands (fst (snd (step ifc c (h, env)))) = undoCommands h
           \<and> redoCommands (fst (snd (step ifc c (h, env)))) = redoCommands h
           \<and> undoCount ifc (snd (step ifc c (h, env))) = undoCount ifc (h, env)
           \<and> redoCount (snd (step ifc c (h, env))) = redoCount (h, env)
           \<and> can_coalesce (fst (snd (step ifc c (h, env)))) = can_coalesce h)"
  using assms by (simp add: execute_def undo_def redo_def pop_def clear_def)

theorem busy_call_rejected_unchanged_witness:
  "busy ((fst fresh)\<lparr>busy := True\<rparr>)
   \<and> undo demo_ifc 1 ((fst fresh)\<lparr>busy := True\<rparr>, snd fresh)
       = (Threw (Error ''Cannot undo during another operation.''), ((fst fresh)\<lparr>busy := True\<rparr>, snd fresh))
   \<and> pop ((fst fresh)\<lparr>busy := True\<rparr>, snd fresh)
       = (Threw (Error ''Cannot alter command history state during an operation.''),
          ((fst fresh)\<lparr>busy := True\<rparr>, snd fresh))"
proof -
  have b: "busy ((fst fresh)\<lparr>busy := True\<rparr>)"
    by simp
  from busy_call_rejected_unchanged [OF b, of demo_ifc "make (Plain 1)" "snd fresh" 1] b
  show ?thesis by simp
qed

subsection \<open>\<^verbatim>\<open>pop\<close>\<close>

text \<open>
  Claim C10. On an engine that is not busy, \<^verbatim>\<open>pop()\<close> returns normally and changes
  neither the redo stack, nor the coalescence flag, nor the busy flag, nor anything
  outside the engine; it removes the top of the undo stack. When the undo stack is
  empty it leaves the whole state as it was.
\<close>

theorem pop_frame:
  assumes "\<not> busy h"
  shows "fst (pop (h, env)) = Returned
       \<and> redoCommands (fst (snd (pop (h, env)))) = redoCommands h
       \<and> can_coalesce (fst (snd (pop (h, env)))) = can_coalesce h
       \<and> busy (fst (snd (pop (h, env)))) = busy h
       \<and> snd (snd (pop (h, env))) = env
       \<and> undoCommands (fst (snd (pop (h, env)))) = butlast (undoCommands h)
       \<and> (undoCommands h = [] \<longrightarrow> pop (h, env) = (Returned, (h, env)))"
  using assms by (simp add: pop_def array_pop_def)

theorem pop_frame_witness:
  "\<not> busy (fst fresh) \<and> undoCommands (fst fresh) = [] \<and> pop fresh = (Returned, fresh)"
proof -
  have nb: "\<not> busy (fst fresh)"
    by (simp add: fresh_def new_CommandHistory_def)
  have empty: "undoCommands (fst fresh) = []"
    by (simp add: fresh_def new_CommandHistory_def)
  from pop_frame [OF nb, of "snd fresh"] nb empty show ?thesis by simp
qed

subsection \<open>\<^verbatim>\<open>execute\<close>: the UNDONE answer\<close>

text \<open>
  Claim C7. When \<^verbatim>\<open>execute\<close> runs with the coalescence flag set and a non-empty undo
  stack, and the \<^verbatim>\<open>coalesce\<close> of the incumbent answers UNDONE for the new command,
  the call returns at once: the incumbent is not pushed back, the rest of the undo
  stack and the redo stack are unchanged, the only call made on a command is that
  \<^verbatim>\<open>coalesce\<close> (so the new command's \<^verbatim>\<open>execute\<close> is not called), and neither command
  is on either stack afterwards (given that they were nowhere else on the stacks before).
\<close>

theorem undone_drops_both:
  assumes "\<not> busy h" and "can_coalesce h"
    and "undoCommands h = rest @ [lcmd]"
    and "ctor (world env) = (ncmd, w)"
    and "cmd_coalesce ifc lcmd = Some coalesce"
    and "coalesce ncmd w = (UNDONE, w')"
  shows "fst (execute ifc ctor (h, env)) = Returned
       \<and> undoCommands (fst (snd (execute ifc ctor (h, env)))) = rest
       \<and> redoCommands (fst (snd (execute ifc ctor (h, env)))) = redoCommands h
       \<and> events (snd (snd (execute ifc ctor (h, env))))
           = events env @ CallCoalesce lcmd ncmd
               # (if verbose h
                  then [ConsoleInfo (''Dropped '' @ description ifc ncmd w' @ '' due to manual undo.'')]
                  else [])
       \<and> CallExecute ncmd
           \<notin> set (drop (length (events env)) (events (snd (snd (execute ifc ctor (h, env))))))
       \<and> (lcmd \<notin> set rest \<union> set (redoCommands h) \<and> ncmd \<notin> set rest \<union> set (redoCommands h) \<longrightarrow>
            {lcmd, ncmd} \<inter> (set (undoCommands (fst (snd (execute ifc ctor (h, env)))))
                             \<union> set (redoCommands (fst (snd (execute ifc ctor (h, env)))))) = {})"
  using assms by (simp add: execute_def try_coalesce_def Let_def info_def called_def)

theorem undone_drops_both_witness:
  "undoCommands (fst (snd (run demo_ifc [Execute (make (Plain 1)), Execute (make (Cancelling 2))] fresh)))
     = [Plain 1, Cancelling 2]
   \<and> undoCommands (fst (snd (execute demo_ifc (make (Plain 3))
        (snd (run demo_ifc [Execute (make (Plain 1)), Execute (make (Cancelling 2))] fresh)))))
     = [Plain 1]
   \<and> redoCommands (fst (snd (execute demo_ifc (make (Plain 3))
        (snd (run demo_ifc [Execute (make (Plain 1)), Execute (make (Cancelling 2))] fresh)))))
     = []"
proof -
  let ?s = "snd (run demo_ifc [Execute (make (Plain 1)), Execute (make (Cancelling 2))] fresh)"
  have before: "undoCommands (fst ?s) = [Plain 1] @ [Cancelling 2]" "redoCommands (fst ?s) = []"
    and nb: "\<not> busy (fst ?s)" and cc: "can_coalesce (fst ?s)" and w: "world (snd ?s) = 2"
    by (simp_all add: demo_defs)
  have ctor: "make (Plain 3) (world (snd ?s)) = (Plain 3, 2)"
    by (simp only: w make_def)
  have co: "cmd_coalesce demo_ifc (Cancelling 2) = Some (\<lambda>n w. (UNDONE, w - 1))"
    by (simp add: demo_ifc_def)
  from undone_drops_both [where h = "fst ?s" and env = "snd ?s" and ifc = demo_ifc
      and ctor = "make (Plain 3)" and rest = "[Plain 1]" and lcmd = "Cancelling 2"
      and ncmd = "Plain 3" and w = 2 and coalesce = "\<lambda>n w. (UNDONE, w - 1)" and w' = 1]
    nb cc before ctor co
  show ?thesis by simp
qed

subsection \<open>\<^verbatim>\<open>execute\<close>: ADD and NOOP\<close>

text \<open>
  Claim C6. When the command of an \<^verbatim>\<open>execute\<close> is applied (the coalescence block
  did not absorb it) and resolves to ADD, the call returns with the new command pushed
  onto the undo stack and the redo stack empty. After any \<^verbatim>\<open>undo\<close> that returned, the
  coalescence block is skipped (the flag is down), so there every command that resolves
  to ADD empties the redo stack. A command that resolves to NOOP leaves both stacks as
  they were, the redo stack included.
\<close>

theorem execute_add_wipes_redo:
  "(\<not> busy h \<and> ctor (world env) = (ncmd, w)
      \<and> try_coalesce ifc ncmd (h\<lparr>busy := True\<rparr>, env\<lparr>world := w\<rparr>) = (False, (h2, env2))
      \<and> cmd_execute ifc ncmd (world env2) = (Fulfilled ADD, w') \<longrightarrow>
        fst (execute ifc ctor (h, env)) = Returned
      \<and> undoCommands (fst (snd (execute ifc ctor (h, env)))) = undoCommands h @ [ncmd]
      \<and> redoCommands (fst (snd (execute ifc ctor (h, env)))) = [])
   \<and> (\<not> busy h \<and> ctor (world env) = (ncmd, w)
      \<and> try_coalesce ifc ncmd (h\<lparr>busy := True\<rparr>, env\<lparr>world := w\<rparr>) = (False, (h2, env2))
      \<and> cmd_execute ifc ncmd (world env2) = (Fulfilled NOOP, w') \<longrightarrow>
        fst (execute ifc ctor (h, env)) = Returned
      \<and> undoCommands (fst (snd (execute ifc ctor (h, env)))) = undoCommands h
      \<and> redoCommands (fst (snd (execute ifc ctor (h, env)))) = redoCommands h)
   \<and> (undo ifc levels s0 = (Returned, (h, env)) \<and> ctor (world env) = (ncmd, w)
      \<and> cmd_execute ifc ncmd w = (Fulfilled ADD, w') \<longrightarrow>
        fst (execute ifc ctor (h, env)) = Returned
      \<and> undoCommands (fst (snd (execute ifc ctor (h, env)))) = undoCommands h @ [ncmd]
      \<and> redoCommands (fst (snd (execute ifc ctor (h, env)))) = [])"
proof (intro conjI impI)
  assume a: "\<not> busy h \<and> ctor (world env) = (ncmd, w)
      \<and> try_coalesce ifc ncmd (h\<lparr>busy := True\<rparr>, env\<lparr>world := w\<rparr>) = (False, (h2, env2))
      \<and> cmd_execute ifc ncmd (world env2) = (Fulfilled ADD, w')"
  then have nb: "\<not> busy h" and c: "ctor (world env) = (ncmd, w)"
    and t: "try_coalesce ifc ncmd (h\<lparr>busy := True\<rparr>, env\<lparr>world := w\<rparr>) = (False, (h2, env2))"
    and x: "cmd_execute ifc ncmd (world env2) = (Fulfilled ADD, w')"
    by simp_all
  note r = execute_add_stacks [where ctor = ctor and env = env, OF nb c t x]
  show "fst (execute ifc ctor (h, env)) = Returned" by (rule r)
  show "undoCommands (fst (snd (execute ifc ctor (h, env)))) = undoCommands h @ [ncmd]" by (rule r)
  show "redoCommands (fst (snd (execute ifc ctor (h, env)))) = []" by (rule r)
next
  assume a: "\<not> busy h \<and> ctor (world env) = (ncmd, w)
      \<and> try_coalesce ifc ncmd (h\<lparr>busy := True\<rparr>, env\<lparr>world := w\<rparr>) = (False, (h2, env2))
      \<and> cmd_execute ifc ncmd (world env2) = (Fulfilled NOOP, w')"
  then have nb: "\<not> busy h" and c: "ctor (world env) = (ncmd, w)"
    and t: "try_coalesce ifc ncmd (h\<lparr>busy := True\<rparr>, env\<lparr>world := w\<rparr>) = (False, (h2, env2))"
    and x: "cmd_execute ifc ncmd (world env2) = (Fulfilled NOOP, w')"
    by simp_all
  note r = execute_noop_stacks [where ctor = ctor and env = env, OF nb c t x]
  show "fst (execute ifc ctor (h, env)) = Returned" by (rule r)
  show "undoCommands (fst (snd (execute ifc ctor (h, env)))) = undoCommands h" by (rule r)
  show "redoCommands (fst (snd (execute ifc ctor (h, env)))) = redoCommands h" by (rule r)
next
  assume a: "undo ifc levels s0 = (Returned, (h, env)) \<and> ctor (world env) = (ncmd, w)
      \<and> cmd_execute ifc ncmd w = (Fulfilled ADD, w')"
  then have u: "undo ifc levels s0 = (Returned, (h, env))" and c: "ctor (world env) = (ncmd, w)"
    and x: "cmd_execute ifc ncmd (world (env\<lparr>world := w\<rparr>)) = (Fulfilled ADD, w')"
    by simp_all
  from undo_returned [OF u] have nb: "\<not> busy h" and nc: "\<not> can_coalesce h"
    by simp_all
  have t: "try_coalesce ifc ncmd (h\<lparr>busy := True\<rparr>, env\<lparr>world := w\<rparr>)
             = (False, (h\<lparr>busy := True\<rparr>, env\<lparr>world := w\<rparr>))"
    using nc by (simp add: try_coalesce_def)
  note r = execute_add_stacks [where ctor = ctor and env = env, OF nb c t x]
  show "fst (execute ifc ctor (h, env)) = Returned" by (rule r)
  show "undoCommands (fst (snd (execute ifc ctor (h, env)))) = undoCommands h @ [ncmd]" by (rule r)
  show "redoCommands (fst (snd (execute ifc ctor (h, env)))) = []" by (rule r)
qed

theorem execute_add_wipes_redo_witness:
  "redoCommands (fst (snd (run demo_ifc
      [Execute (make (Plain 1)), Execute (make (Plain 2)), Undo 1] fresh))) = [Plain 2]
   \<and> undoCommands (fst (snd (execute demo_ifc (make (Plain 3)) (snd (run demo_ifc
      [Execute (make (Plain 1)), Execute (make (Plain 2)), Undo 1] fresh))))) = [Plain 1, Plain 3]
   \<and> redoCommands (fst (snd (execute demo_ifc (make (Plain 3)) (snd (run demo_ifc
      [Execute (make (Plain 1)), Execute (make (Plain 2)), Undo 1] fresh))))) = []
   \<and> redoCommands (fst (snd (execute demo_ifc (make (Idle 4)) (snd (run demo_ifc
      [Execute (make (Plain 1)), Execute (make (Plain 2)), Undo 1] fresh))))) = [Plain 2]"
proof -
  let ?before = "snd (run demo_ifc [Execute (make (Plain 1)), Execute (make (Plain 2))] fresh)"
  let ?s = "snd (run demo_ifc [Execute (make (Plain 1)), Execute (make (Plain 2)), Undo 1] fresh)"
  have u: "undo demo_ifc 1 ?before = (Returned, ?s)"
    by (simp add: demo_defs undo_loop.simps)
  have st: "undoCommands (fst ?s) = [Plain 1]" "redoCommands (fst ?s) = [Plain 2]"
    "\<not> busy (fst ?s)" "world (snd ?s) = 1"
    by (simp_all add: demo_defs undo_loop.simps)
  have c3: "make (Plain 3) (world (snd ?s)) = (Plain 3, 1)"
    and c4: "make (Idle 4) (world (snd ?s)) = (Idle 4, 1)"
    by (simp_all only: st make_def)
  have x3: "cmd_execute demo_ifc (Plain 3) 1 = (Fulfilled ADD, 2)"
    by (simp add: demo_ifc_def)
  have t4: "try_coalesce demo_ifc (Idle 4) ((fst ?s)\<lparr>busy := True\<rparr>, (snd ?s)\<lparr>world := 1\<rparr>)
              = (False, ((fst ?s)\<lparr>busy := True\<rparr>, (snd ?s)\<lparr>world := 1\<rparr>))"
    by (simp add: demo_defs undo_loop.simps)
  have x4: "cmd_execute demo_ifc (Idle 4) (world ((snd ?s)\<lparr>world := 1\<rparr>)) = (Fulfilled NOOP, 1)"
    by (simp add: demo_ifc_def)
  note after_undo = execute_add_wipes_redo [where ifc = demo_ifc and ?s0.0 = ?before and levels = 1
      and h = "fst ?s" and env = "snd ?s" and ctor = "make (Plain 3)" and ncmd = "Plain 3"
      and w = 1 and w' = 2, unfolded prod.collapse]
  note idle = execute_add_wipes_redo [where ifc = demo_ifc and h = "fst ?s"
      and env = "snd ?s" and ctor = "make (Idle 4)" and ncmd = "Idle 4" and w = 1 and w' = 1
      and ?h2.0 = "(fst ?s)\<lparr>busy := True\<rparr>" and ?env2.0 = "(snd ?s)\<lparr>world := 1\<rparr>",
      unfolded prod.collapse]
  from after_undo u c3 x3
  have add: "undoCommands (fst (snd (execute demo_ifc (make (Plain 3)) ?s))) = undoCommands (fst ?s) @ [Plain 3]"
    "redoCommands (fst (snd (execute demo_ifc (make (Plain 3)) ?s))) = []"
    by blast+
  from idle st(3) c4 t4 x4
  have noop: "redoCommands (fst (snd (execute demo_ifc (make (Idle 4)) ?s))) = redoCommands (fst ?s)"
    by blast
  from add noop st show ?thesis
    by (simp only: append.simps simp_thms)
qed

subsection \<open>\<^verbatim>\<open>execute\<close>: the coalescence flag after NOOP\<close>




subsection \<open>The coalescence flag: initial value and raising\<close>

text \<open>
  Claim C2, as amended. A newly constructed engine has the coalescence flag set
  (whatever the options). Afterwards, a call that finds the flag down and leaves it up
  is an \<^verbatim>\<open>execute\<close> on an engine that is not busy and has a positive coalescence
  window, the call returns, and the first-time apply of its command resolved to ADD.
\<close>

theorem flag_raised_only_by_add:
  "can_coalesce (new_CommandHistory opts)
   \<and> (\<not> can_coalesce h \<and> step ifc c (h, env) = (out, (h', env')) \<and> can_coalesce h' \<longrightarrow>
        (\<exists>ctor. c = Execute ctor \<and> \<not> busy h \<and> out = Returned \<and> 0 < coalescenceWindow h
           \<and> fst (cmd_execute ifc (fst (ctor (world env))) (snd (ctor (world env)))) = Fulfilled ADD))"
proof (intro conjI impI)
  show "can_coalesce (new_CommandHistory opts)"
    by (simp add: new_CommandHistory_def)
next
  assume a: "\<not> can_coalesce h \<and> step ifc c (h, env) = (out, (h', env')) \<and> can_coalesce h'"
  then have low: "\<not> can_coalesce h" and st: "step ifc c (h, env) = (out, (h', env'))"
    and high: "can_coalesce h'"
    by simp_all
  show "\<exists>ctor. c = Execute ctor \<and> \<not> busy h \<and> out = Returned \<and> 0 < coalescenceWindow h
           \<and> fst (cmd_execute ifc (fst (ctor (world env))) (snd (ctor (world env)))) = Fulfilled ADD"
  proof (cases c)
    case (Execute ctor)
    with st have e: "execute ifc ctor (h, env) = (out, (h', env'))"
      by simp
    from execute_cases [OF e] low high
    obtain r w where nb: "\<not> busy h" and out: "out = Returned"
      and x: "cmd_execute ifc (fst (ctor (world env))) w = (Fulfilled r, world env')"
      and w: "w = snd (ctor (world env))"
      and r: "can_coalesce h'
                = ((r = ADD \<or> r = NOOP \<and> can_coalesce h) \<and> coalescenceWindow h > 0)"
      by auto
    from r low high have "r = ADD" "0 < coalescenceWindow h"
      by simp_all
    with Execute nb out x w show ?thesis
      by simp
  next
    case (Undo levels)
    with st have "undo ifc levels (h, env) = (out, (h', env'))"
      by simp
    from undo_cases [OF this] low high show ?thesis
      by auto
  next
    case (Redo levels)
    with st have "redo ifc levels (h, env) = (out, (h', env'))"
      by simp
    from redo_cases [OF this] low high show ?thesis
      by auto
  next
    case Pop
    with st low high show ?thesis
      by (auto simp: pop_def split: if_splits)
  next
    case Clear
    with st low high show ?thesis
      by (auto simp: clear_def split: if_splits)
  next
    case CoalescenceBarrier
    with st low high show ?thesis
      by (auto simp: coalescenceBarrier_def)
  next
    case TimerFires
    with st low high show ?thesis
      by (auto simp: timer_fires_def split: option.splits if_splits)
  qed
qed

theorem flag_raised_only_by_add_witness:
  "\<not> can_coalesce (fst (snd (run demo_ifc [Undo 1] fresh)))
   \<and> can_coalesce (fst (snd (step demo_ifc (Execute (make (Plain 1))) (snd (run demo_ifc [Undo 1] fresh)))))
   \<and> fst (cmd_execute demo_ifc (Plain 1) 0) = Fulfilled ADD"
proof -
  let ?before = "snd (run demo_ifc [Undo 1] fresh)"
  let ?after = "step demo_ifc (Execute (make (Plain 1))) ?before"
  have low: "\<not> can_coalesce (fst ?before)" and high: "can_coalesce (fst (snd ?after))"
    and w: "world (snd ?before) = 0"
    by (simp_all add: demo_defs undo_loop.simps)
  have st: "step demo_ifc (Execute (make (Plain 1))) (fst ?before, snd ?before)
              = (fst ?after, (fst (snd ?after), snd (snd ?after)))"
    by (simp only: prod.collapse)
  from flag_raised_only_by_add [where ifc = demo_ifc and h = "fst ?before" and env = "snd ?before"
      and c = "Execute (make (Plain 1))" and out = "fst ?after" and h' = "fst (snd ?after)"
      and env' = "snd (snd ?after)" and opts = default_options] low high st
  obtain ctor where c: "Execute (make (Plain 1)) = (Execute ctor :: (demo, int) call)"
    and x: "fst (cmd_execute demo_ifc (fst (ctor (world (snd ?before)))) (snd (ctor (world (snd ?before)))))
           = Fulfilled ADD"
    by blast
  from c have "ctor = make (Plain 1)"
    by (simp only: call.inject)
  with x have "fst (cmd_execute demo_ifc (fst (make (Plain 1) (world (snd ?before))))
                     (snd (make (Plain 1) (world (snd ?before))))) = Fulfilled ADD"
    by (simp only:)
  then have "fst (cmd_execute demo_ifc (Plain 1) 0) = Fulfilled ADD"
    by (simp only: w make_def fst_conv snd_conv)
  with low high show ?thesis
    by (simp only: simp_thms)
qed

text \<open>
  Claim C2 as stated fails at its first half: the field initialiser is
  \<^verbatim>\<open>can_coalesce = true\<close>, so the engine built by \<^verbatim>\<open>new CommandHistory()\<close> starts
  with the flag set (its undo stack is empty, so the first \<^verbatim>\<open>execute\<close> finds no
  incumbent to coalesce with).
\<close>

theorem new_engine_is_eligible:
  "can_coalesce (fst fresh) \<and> undoCommands (fst fresh) = [] \<and> \<not> busy (fst fresh)"
  by (simp add: fresh_def new_CommandHistory_def)

subsection \<open>Release of the busy flag\<close>

text \<open>
  Claim C1 does not hold of the code. \<^verbatim>\<open>execute\<close> sets \<^verbatim>\<open>_busy\<close> and its two
  early \<^verbatim>\<open>return\<close> statements (COALESCED, UNDONE) leave without clearing it; a
  rejecting command operation leaves the same way, since there is no
  \<^verbatim>\<open>try\<close>/\<^verbatim>\<open>finally\<close>. Evaluated on a new engine: after a command that coalesces
  the next one, both calls return, the engine stays busy and the following
  \<^verbatim>\<open>undo\<close> fails with the busy error; likewise after an UNDONE answer and after a
  rejected reverse operation.
\<close>

theorem busy_stays_set:
  "fst (run demo_ifc [Execute (make (Merging 1)), Execute (make (Plain 2)), Undo 1] fresh)
     = [Returned, Returned, Threw (Error ''Cannot undo during another operation.'')]
   \<and> \<not> busy (fst (snd (run demo_ifc [Execute (make (Merging 1))] fresh)))
   \<and> busy (fst (snd (run demo_ifc [Execute (make (Merging 1)), Execute (make (Plain 2))] fresh)))
   \<and> fst (run demo_ifc [Execute (make (Cancelling 1)), Execute (make (Plain 2))] fresh)
       = [Returned, Returned]
   \<and> busy (fst (snd (run demo_ifc [Execute (make (Cancelling 1)), Execute (make (Plain 2))] fresh)))
   \<and> fst (run demo_ifc [Execute (make (Stuck 1)), Undo 1] fresh) = [Returned, Threw Rejection]
   \<and> busy (fst (snd (run demo_ifc [Execute (make (Stuck 1)), Undo 1] fresh)))"
  by (simp add: demo_defs undo_loop.simps)

subsection \<open>Eligibility and the redo stack\<close>

text \<open>
  Claim C9, as amended. Take any sequence of \<^verbatim>\<open>execute\<close>, \<^verbatim>\<open>undo\<close>, \<^verbatim>\<open>redo\<close>,
  \<^verbatim>\<open>pop\<close>, \<^verbatim>\<open>clear\<close>, \<^verbatim>\<open>coalescenceBarrier\<close> calls and timer expirations on a new
  engine. If no \<^verbatim>\<open>undo\<close> call of the sequence was ended by a rejecting reverse
  operation, or if the engine is not busy at the end, then in the state reached a set
  coalescence flag implies an empty redo stack.
\<close>

theorem eligible_implies_redo_empty:
  fixes h :: "('a, 'b) CommandHistory"
  assumes "run ifc calls (new_CommandHistory opts, env) = (outs, (h, env'))"
    and "(\<forall>n. (Undo n, Threw Rejection) \<notin> set (zip calls outs)) \<or> \<not> busy h"
  shows "can_coalesce h \<longrightarrow> redoCommands h = []"
proof -
  have init: "can_coalesce (fst (new_CommandHistory opts :: ('a, 'b) CommandHistory, env))
                \<longrightarrow> redoCommands (fst (new_CommandHistory opts :: ('a, 'b) CommandHistory, env)) = []"
    by (simp add: new_CommandHistory_def)
  from assms(2) show ?thesis
  proof
    assume "\<forall>n. (Undo n, Threw Rejection) \<notin> set (zip calls outs)"
    from run_keeps_eligible_redo_empty [OF init assms(1) this] show ?thesis
      by simp
  next
    assume "\<not> busy h"
    with run_keeps_idle_invariant [OF disjI2 [OF init] assms(1)] show ?thesis
      by simp
  qed
qed

theorem eligible_implies_redo_empty_witness:
  "fst (run demo_ifc [Execute (make (Plain 1)), Execute (make (Plain 2)), Undo 1, Redo 1,
                      Undo 2, Execute (make (Plain 3))] fresh)
     = [Returned, Returned, Returned, Returned, Returned, Returned]
   \<and> can_coalesce (fst (snd (run demo_ifc [Execute (make (Plain 1)), Execute (make (Plain 2)),
                      Undo 1, Redo 1, Undo 2, Execute (make (Plain 3))] fresh)))
   \<and> redoCommands (fst (snd (run demo_ifc [Execute (make (Plain 1)), Execute (make (Plain 2)),
                      Undo 1, Redo 1, Undo 2, Execute (make (Plain 3))] fresh))) = []"
proof -
  let ?calls = "[Execute (make (Plain 1)), Execute (make (Plain 2)), Undo 1, Redo 1,
                 Undo 2, Execute (make (Plain 3))] :: (demo, int) call list"
  let ?r = "run demo_ifc ?calls fresh"
  have outs: "fst ?r = [Returned, Returned, Returned, Returned, Returned, Returned]"
    and cc: "can_coalesce (fst (snd ?r))"
    by (simp_all add: demo_defs undo_loop.simps redo_loop.simps)
  have r: "run demo_ifc ?calls (new_CommandHistory default_options, new_host 0)
             = (fst ?r, (fst (snd ?r), snd (snd ?r)))"
    by (simp only: prod.collapse fresh_def)
  have ok: "(\<forall>n. (Undo n, Threw Rejection) \<notin> set (zip ?calls (fst ?r))) \<or> \<not> busy (fst (snd ?r))"
    by (simp only: outs) simp
  from eligible_implies_redo_empty [OF r ok] cc outs show ?thesis
    by (simp only: simp_thms)
qed

text \<open>
  Claim C9 as stated fails after an \<^verbatim>\<open>undo\<close> that a command rejects: the commands
  undone before the failure are on the redo stack, and the statement that lowers the
  flag, after the loop, is never reached.
\<close>

theorem rejected_undo_leaves_flag_and_redo:
  "fst (run demo_ifc [Execute (make (Stuck 1)), Execute (make (Plain 2)), Undo 2] fresh)
     = [Returned, Returned, Threw Rejection]
   \<and> can_coalesce (fst (snd (run demo_ifc
        [Execute (make (Stuck 1)), Execute (make (Plain 2)), Undo 2] fresh)))
   \<and> redoCommands (fst (snd (run demo_ifc
        [Execute (make (Stuck 1)), Execute (make (Plain 2)), Undo 2] fresh))) = [Plain 2]"
  by (simp add: demo_defs undo_loop.simps)

subsection \<open>The loops of \<^verbatim>\<open>undo\<close> and \<^verbatim>\<open>redo\<close>\<close>



subsection \<open>Undo followed by redo\<close>




end
